theory Spec2Isabelle
  imports Main "HOL-Library.Word"
begin

unbundle bit_operations_syntax

section \<open>Python values\<close>

text \<open>
  A Python \<^verbatim>\<open>str\<close> is a sequence of Unicode code points, so a string is a list of
  naturals (the code points), not a list of bytes. \<open>lit\<close> turns an ASCII literal into
  such a string.
\<close>

type_synonym pystr = "nat list"

definition lit :: "string \<Rightarrow> pystr" where
  "lit s = map of_char s"

text \<open>
  \<^verbatim>\<open>str.strip()\<close> with no argument removes leading and trailing whitespace. The
  whitespace code points are those of CPython's \<^verbatim>\<open>Py_UNICODE_ISSPACE\<close>.
\<close>

definition py_isspace :: "nat \<Rightarrow> bool" where
  "py_isspace c =
     ((9 \<le> c \<and> c \<le> 13) \<or> (28 \<le> c \<and> c \<le> 32) \<or> c = 133 \<or> c = 160 \<or> c = 5760
      \<or> (8192 \<le> c \<and> c \<le> 8202) \<or> c = 8232 \<or> c = 8233 \<or> c = 8239 \<or> c = 8287
      \<or> c = 12288)"

definition py_strip :: "pystr \<Rightarrow> pystr" where
  "py_strip s = rev (dropWhile py_isspace (rev (dropWhile py_isspace s)))"

text \<open>
  The values \<^verbatim>\<open>json.loads\<close> can return. A float is its IEEE 754 double, as 64 bits.
  A \<^verbatim>\<open>dict\<close> is the list of its items in insertion order; its keys are distinct.
\<close>

datatype json =
    JNull
  | JBool bool
  | JInt int
  | JFloat "64 word"
  | JStr pystr
  | JArr "json list"
  | JObj "(pystr \<times> json) list"

text \<open>\<^verbatim>\<open>isinstance(v, list)\<close> and \<^verbatim>\<open>isinstance(v, dict)\<close> on such a value.\<close>

fun is_list :: "json \<Rightarrow> bool" where
  "is_list (JArr _) = True"
| "is_list _ = False"

fun is_dict :: "json \<Rightarrow> bool" where
  "is_dict (JObj _) = True"
| "is_dict _ = False"

fun items_of :: "json \<Rightarrow> json list" where
  "items_of (JArr xs) = xs"
| "items_of _ = []"

fun entries :: "json \<Rightarrow> (pystr \<times> json) list" where
  "entries (JObj kvs) = kvs"
| "entries _ = []"

text \<open>\<^verbatim>\<open>k in d\<close>, \<^verbatim>\<open>d[k]\<close> (only evaluated where \<^verbatim>\<open>k in d\<close> holds) and
  \<^verbatim>\<open>d.get(k, default)\<close> for a dict \<open>d\<close>.\<close>

definition has_key :: "pystr \<Rightarrow> json \<Rightarrow> bool" where
  "has_key k d = (map_of (entries d) k \<noteq> None)"

definition dict_get :: "json \<Rightarrow> pystr \<Rightarrow> json \<Rightarrow> json" where
  "dict_get d k dflt = (case map_of (entries d) k of None \<Rightarrow> dflt | Some v \<Rightarrow> v)"

text \<open>
  \<^verbatim>\<open>bool(v)\<close>: \<^verbatim>\<open>None\<close>, \<^verbatim>\<open>False\<close>, zero (a float: \<open>+0.0\<close> and \<open>-0.0\<close>, that is all bits
  but the sign clear) and the empty string, list and dict are false; all else is true.
\<close>

fun py_bool :: "json \<Rightarrow> bool" where
  "py_bool JNull = False"
| "py_bool (JBool b) = b"
| "py_bool (JInt i) = (i \<noteq> 0)"
| "py_bool (JFloat w) = (push_bit 1 w \<noteq> 0)"
| "py_bool (JStr s) = (s \<noteq> [])"
| "py_bool (JArr xs) = (xs \<noteq> [])"
| "py_bool (JObj kvs) = (kvs \<noteq> [])"

text \<open>
  \<^verbatim>\<open>str(v)\<close>: a string is returned as it is; for every other value \<^verbatim>\<open>str\<close> is the
  interpreter's \<^verbatim>\<open>repr\<close>, which is taken as the parameter \<open>R\<close>.
\<close>

fun py_str :: "(json \<Rightarrow> pystr) \<Rightarrow> json \<Rightarrow> pystr" where
  "py_str R (JStr s) = s"
| "py_str R v = R v"

text \<open>
  List indexing \<^verbatim>\<open>xs[i]\<close>: a negative index counts from the end, and an index outside
  \<open>-len \<le> i < len\<close> raises \<^verbatim>\<open>IndexError\<close> (here: no position).
\<close>

definition py_index :: "'a list \<Rightarrow> int \<Rightarrow> nat option" where
  "py_index xs i =
     (if 0 \<le> i \<and> i < int (length xs) then Some (nat i)
      else if - int (length xs) \<le> i \<and> i < 0 then Some (nat (int (length xs) + i))
      else None)"

text \<open>
  The exceptions the program can raise. \<^verbatim>\<open>PermissionError\<close> and the other errors of the
  file system are subclasses of \<^verbatim>\<open>OSError\<close>.
\<close>

datatype py_error = IndexError | OSError

subsection \<open>Strings through JSON text\<close>

text \<open>
  \<^verbatim>\<open>json.dumps\<close> (with \<^verbatim>\<open>ensure_ascii\<close>, the default) writes a string as UTF-16 code
  units: a code point below \<open>0x10000\<close> is one unit (itself, plain or as the escape
  \<^verbatim>\<open>\uXXXX\<close>), a code point from \<open>0x10000\<close> is the two escapes of its surrogates.
\<close>

definition is_high :: "nat \<Rightarrow> bool" where
  "is_high u = (0xD800 \<le> u \<and> u \<le> 0xDBFF)"

definition is_low :: "nat \<Rightarrow> bool" where
  "is_low u = (0xDC00 \<le> u \<and> u \<le> 0xDFFF)"

fun dumps_units :: "pystr \<Rightarrow> nat list" where
  "dumps_units [] = []"
| "dumps_units (c # cs) =
     (if c < 0x10000 then [c]
      else [0xD800 + (c - 0x10000) div 1024, 0xDC00 + (c - 0x10000) mod 1024])
     @ dumps_units cs"

text \<open>
  \<^verbatim>\<open>json.loads\<close> reads the units from the left: the escape of a high surrogate followed
  by the escape of a low surrogate is the one code point the two encode; every other
  unit is the code point of its number.
\<close>

fun loads_units :: "nat list \<Rightarrow> pystr" where
  "loads_units (u # v # us) =
     (if is_high u \<and> is_low v
      then (0x10000 + (u - 0xD800) * 1024 + (v - 0xDC00)) # loads_units us
      else u # loads_units (v # us))"
| "loads_units us = us"

text \<open>The string \<^verbatim>\<open>json.loads\<close> returns from the text \<^verbatim>\<open>json.dumps\<close> writes for \<open>s\<close>.\<close>

definition json_reload_str :: "pystr \<Rightarrow> pystr" where
  "json_reload_str s = loads_units (dumps_units s)"

section \<open>Tasks and the data file\<close>

text \<open>A task is the dict \<^verbatim>\<open>{"text": str, "done": bool}\<close>.\<close>

record task =
  "text" :: pystr
  "done" :: bool

text \<open>
  The state of \<^verbatim>\<open>data_file\<close>: it does not exist; its path cannot be examined
  (\<^verbatim>\<open>data_file.exists()\<close> raises: \<^verbatim>\<open>Path.exists\<close> returns false only for the errors
  \<^verbatim>\<open>ENOENT\<close>, \<^verbatim>\<open>ENOTDIR\<close>, \<^verbatim>\<open>EBADF\<close> and \<^verbatim>\<open>ELOOP\<close> of \<^verbatim>\<open>stat\<close> and raises every
  other \<^verbatim>\<open>OSError\<close>, such as the \<^verbatim>\<open>PermissionError\<close> of a directory that may not be
  searched); it exists and cannot be read (\<^verbatim>\<open>read_text\<close> raises); its text is no JSON
  (\<^verbatim>\<open>json.loads\<close> raises); or \<^verbatim>\<open>json.loads\<close> returns the value \<open>v\<close> from its text
  (\<open>Doc v\<close>).
\<close>

datatype file_state = Missing | Inaccessible | Unreadable | Garbage | Doc json

text \<open>Messages shown with \<^verbatim>\<open>messagebox.showinfo\<close>, by their titles; \<open>Cleared\<close> carries
  the number in its message.\<close>

datatype notice = EmptyTask | NoSelection | Cleared int

text \<open>What the program does to the world outside, in order.\<close>

datatype event =
    ShowInfo notice
  | AskYesNo pystr
  | WriteText json
  | SetTaskVar pystr
  | RefreshList "task list"
  | SelectionSet int

text \<open>
  The world outside the process: the file, whether writing it fails (\<open>Some f\<close>: a
  \<^verbatim>\<open>write_text\<close> raises \<^verbatim>\<open>OSError\<close> and leaves the file as \<open>f\<close>), and the log of
  events so far, oldest first.
\<close>

record world =
  data_file :: file_state
  write_fault :: "file_state option"
  events :: "event list"

definition emit :: "event \<Rightarrow> world \<Rightarrow> world" where
  "emit e w = w\<lparr>events := events w @ [e]\<rparr>"

subsection \<open>load_tasks\<close>

definition task_of_item :: "(json \<Rightarrow> pystr) \<Rightarrow> json \<Rightarrow> task" where
  "task_of_item R item =
     \<lparr>text = py_str R (dict_get item (lit ''text'') JNull),
      done = py_bool (dict_get item (lit ''done'') (JBool False))\<rparr>"

text \<open>The \<^verbatim>\<open>for item in data\<close> loop, with \<open>out\<close> the list built so far.\<close>

fun load_loop :: "(json \<Rightarrow> pystr) \<Rightarrow> json list \<Rightarrow> task list \<Rightarrow> task list" where
  "load_loop R [] out = out"
| "load_loop R (item # rest) out =
     (if is_dict item \<and> has_key (lit ''text'') item
      then load_loop R rest (out @ [task_of_item R item])
      else load_loop R rest out)"

text \<open>\<^verbatim>\<open>data_file.exists()\<close>: true, false, or the \<^verbatim>\<open>OSError\<close> it raises.\<close>

fun path_exists :: "file_state \<Rightarrow> py_error + bool" where
  "path_exists Missing = Inr False"
| "path_exists Inaccessible = Inl OSError"
| "path_exists _ = Inr True"

text \<open>
  \<^verbatim>\<open>json.loads(data_file.read_text(encoding="utf-8"))\<close>, for a file that exists: the
  value, or none when either call raises.
\<close>

fun read_json :: "file_state \<Rightarrow> json option" where
  "read_json (Doc v) = Some v"
| "read_json _ = None"

text \<open>
  \<^verbatim>\<open>load_tasks\<close>. The test \<^verbatim>\<open>data_file.exists()\<close> stands before the \<^verbatim>\<open>try\<close>: what it
  raises leaves the function. Inside the \<^verbatim>\<open>try\<close> every exception is caught and the
  result is the empty list.
\<close>

definition load_tasks :: "(json \<Rightarrow> pystr) \<Rightarrow> world \<Rightarrow> py_error + task list" where
  "load_tasks R w =
     (case path_exists (data_file w) of
        Inl e \<Rightarrow> Inl e
      | Inr ex \<Rightarrow>
          if \<not> ex then Inr []
          else (case read_json (data_file w) of
                  None \<Rightarrow> Inr []
                | Some data \<Rightarrow>
                    if is_list data then Inr (load_loop R (items_of data) []) else Inr []))"

subsection \<open>save_tasks\<close>

text \<open>The value \<^verbatim>\<open>json.dumps\<close> serialises: the list of the tasks' dicts.\<close>

definition task_json :: "task \<Rightarrow> json" where
  "task_json t = JObj [(lit ''text'', JStr (text t)), (lit ''done'', JBool (done t))]"

definition tasks_json :: "task list \<Rightarrow> json" where
  "tasks_json ts = JArr (map task_json ts)"

text \<open>
  The value \<^verbatim>\<open>json.loads\<close> returns from the text \<^verbatim>\<open>json.dumps(tasks, indent=2)\<close>
  writes: the list of the dicts, every string (the two keys and the text) read back
  through its code units, the flag as it is.
\<close>

definition reload_task :: "task \<Rightarrow> json" where
  "reload_task t =
     JObj [(json_reload_str (lit ''text''), JStr (json_reload_str (text t))),
           (json_reload_str (lit ''done''), JBool (done t))]"

definition reload_tasks :: "task list \<Rightarrow> json" where
  "reload_tasks ts = JArr (map reload_task ts)"

text \<open>
  \<^verbatim>\<open>save_tasks\<close> returns the world after the call and the exception raised, if any.
  After a write that succeeds the file holds the text written.
\<close>

definition save_tasks :: "task list \<Rightarrow> world \<Rightarrow> world \<times> py_error option" where
  "save_tasks ts w =
     (let w1 = emit (WriteText (tasks_json ts)) w
      in case write_fault w1 of
           None \<Rightarrow> (w1\<lparr>data_file := Doc (reload_tasks ts)\<rparr>, None)
         | Some f \<Rightarrow> (w1\<lparr>data_file := f\<rparr>, Some OSError))"

section \<open>The window: TodoGUI\<close>

text \<open>
  The part of a \<^verbatim>\<open>TodoGUI\<close> object the methods below use: the list \<^verbatim>\<open>self.tasks\<close>, and
  the world it acts on. What the methods read from the widgets (the entry's text, the
  listbox's selection, the answer to a question) is an argument of the method.
\<close>

record gui =
  tasks :: "task list"
  world :: world

text \<open>A method returns, or raises an exception; the object is there in both cases.\<close>

datatype outcome = Returned gui | Raised py_error gui

fun state_of :: "outcome \<Rightarrow> gui" where
  "state_of (Returned g) = g"
| "state_of (Raised e g) = g"

fun raised :: "outcome \<Rightarrow> py_error option" where
  "raised (Returned g) = None"
| "raised (Raised e g) = Some e"

text \<open>The statements after a call that may raise run only when it returns.\<close>

fun and_then :: "outcome \<Rightarrow> (gui \<Rightarrow> outcome) \<Rightarrow> outcome" where
  "and_then (Returned g) f = f g"
| "and_then (Raised e g) f = Raised e g"

definition act :: "event \<Rightarrow> gui \<Rightarrow> gui" where
  "act e g = g\<lparr>world := emit e (world g)\<rparr>"

text \<open>\<^verbatim>\<open>_refresh_list\<close> redraws the listbox and the status line from \<^verbatim>\<open>self.tasks\<close>.\<close>

definition refresh_list :: "gui \<Rightarrow> gui" where
  "refresh_list g = act (RefreshList (tasks g)) g"

definition save :: "gui \<Rightarrow> outcome" where
  "save g =
     (case save_tasks (tasks g) (world g) of
        (w, None) \<Rightarrow> Returned (g\<lparr>world := w\<rparr>)
      | (w, Some e) \<Rightarrow> Raised e (g\<lparr>world := w\<rparr>))"

text \<open>
  \<^verbatim>\<open>__init__\<close>: the list is loaded from the file, then drawn. When \<^verbatim>\<open>load_tasks\<close>
  raises, so does the constructor, and there is no window.
\<close>

definition init :: "(json \<Rightarrow> pystr) \<Rightarrow> world \<Rightarrow> py_error + gui" where
  "init R w =
     (case load_tasks R w of
        Inl e \<Rightarrow> Inl e
      | Inr ts \<Rightarrow> Inr (refresh_list \<lparr>tasks = ts, world = w\<rparr>))"

text \<open>\<^verbatim>\<open>add_task\<close>; \<open>raw\<close> is \<^verbatim>\<open>self.task_var.get()\<close>.\<close>

definition add_task :: "pystr \<Rightarrow> gui \<Rightarrow> outcome" where
  "add_task raw g =
     (let txt = py_strip raw
      in if txt = [] then Returned (act (ShowInfo EmptyTask) g)
         else and_then
                (save (act (SetTaskVar [])
                   (g\<lparr>tasks := tasks g @ [\<lparr>text = txt, done = False\<rparr>]\<rparr>)))
                (\<lambda>g'. Returned (refresh_list g')))"

text \<open>\<^verbatim>\<open>toggle_done\<close>; \<open>idx\<close> is the result of \<^verbatim>\<open>self._selected_index()\<close>.\<close>

definition toggle_done :: "int option \<Rightarrow> gui \<Rightarrow> outcome" where
  "toggle_done idx g =
     (case idx of
        None \<Rightarrow> Returned (act (ShowInfo NoSelection) g)
      | Some i \<Rightarrow>
          (case py_index (tasks g) i of
             None \<Rightarrow> Raised IndexError g
           | Some j \<Rightarrow>
               and_then
                 (save (g\<lparr>tasks := (tasks g)[j := (tasks g ! j)\<lparr>done := \<not> done (tasks g ! j)\<rparr>]\<rparr>))
                 (\<lambda>g'. Returned (act (SelectionSet i) (refresh_list g')))))"

text \<open>
  \<^verbatim>\<open>delete_task\<close>; \<open>idx\<close> is the result of \<^verbatim>\<open>self._selected_index()\<close> and \<open>yes\<close> the
  answer \<^verbatim>\<open>messagebox.askyesno\<close> returns. \<^verbatim>\<open>self.tasks.pop(idx)\<close> removes the position
  that \<^verbatim>\<open>self.tasks[idx]\<close> has just read.
\<close>

definition delete_task :: "int option \<Rightarrow> bool \<Rightarrow> gui \<Rightarrow> outcome" where
  "delete_task idx yes g =
     (case idx of
        None \<Rightarrow> Returned (act (ShowInfo NoSelection) g)
      | Some i \<Rightarrow>
          (case py_index (tasks g) i of
             None \<Rightarrow> Raised IndexError g
           | Some j \<Rightarrow>
               (let g1 = act (AskYesNo (text (tasks g ! j))) g
                in if \<not> yes then Returned g1
                   else and_then
                          (save (g1\<lparr>tasks := take j (tasks g1) @ drop (Suc j) (tasks g1)\<rparr>))
                          (\<lambda>g'. Returned (refresh_list g')))))"

text \<open>\<^verbatim>\<open>clear_completed\<close>.\<close>

definition clear_completed :: "gui \<Rightarrow> outcome" where
  "clear_completed g =
     (let before = int (length (tasks g));
          g1 = g\<lparr>tasks := filter (\<lambda>t. \<not> done t) (tasks g)\<rparr>;
          removed = before - int (length (tasks g1))
      in and_then (save g1)
           (\<lambda>g'. Returned (act (ShowInfo (Cleared removed)) (refresh_list g'))))"

section \<open>Notions of the specification\<close>

text \<open>The invariant of the task list: every task's text is non-empty after trimming.\<close>

definition task_inv :: "task list \<Rightarrow> bool" where
  "task_inv ts = list_all (\<lambda>t. py_strip (text t) \<noteq> []) ts"

text \<open>
  A Python string has code points up to \<open>0x10FFFF\<close>. It has a surrogate pair when some
  high surrogate in it is followed at once by a low surrogate.
\<close>

definition py_valid :: "pystr \<Rightarrow> bool" where
  "py_valid s = list_all (\<lambda>c. c < 0x110000) s"

fun has_pair :: "pystr \<Rightarrow> bool" where
  "has_pair (a # b # cs) = ((is_high a \<and> is_low b) \<or> has_pair (b # cs))"
| "has_pair _ = False"

definition plain_task :: "task \<Rightarrow> bool" where
  "plain_task t = (py_valid (text t) \<and> \<not> has_pair (text t))"

text \<open>A task as it is read back from the file: its text through the code units.\<close>

definition reloaded :: "task \<Rightarrow> task" where
  "reloaded t = t\<lparr>text := json_reload_str (text t)\<rparr>"

text \<open>The events a method call added to the log, given the object before the call.\<close>

definition new_events :: "gui \<Rightarrow> outcome \<Rightarrow> event list" where
  "new_events g out = drop (length (events (world g))) (events (world (state_of out)))"

text \<open>
  \<open>load\<close> in the words of the specification: a file whose content is a sequence yields,
  for each record that is an object with a \<open>text\<close> field, the task of that text's string
  conversion and of the boolean conversion of \<open>done\<close> (false when absent); the other
  records are dropped; every other file yields the empty sequence.
\<close>

definition record_task :: "(json \<Rightarrow> pystr) \<Rightarrow> (pystr \<times> json) list \<Rightarrow> task option" where
  "record_task R kvs =
     (case map_of kvs (lit ''text'') of
        None \<Rightarrow> None
      | Some v \<Rightarrow>
          Some \<lparr>text = py_str R v,
                done = (case map_of kvs (lit ''done'') of None \<Rightarrow> False | Some d \<Rightarrow> py_bool d)\<rparr>)"

fun load_records :: "(json \<Rightarrow> pystr) \<Rightarrow> json list \<Rightarrow> task list" where
  "load_records R [] = []"
| "load_records R (JObj kvs # rs) =
     (case record_task R kvs of
        None \<Rightarrow> load_records R rs
      | Some t \<Rightarrow> t # load_records R rs)"
| "load_records R (_ # rs) = load_records R rs"

fun load_spec :: "(json \<Rightarrow> pystr) \<Rightarrow> file_state \<Rightarrow> task list" where
  "load_spec R (Doc (JArr records)) = load_records R records"
| "load_spec R _ = []"

section \<open>Sample inputs\<close>

text \<open>
  A stand-in for \<^verbatim>\<open>repr\<close> in the examples: right on \<^verbatim>\<open>None\<close>, \<^verbatim>\<open>True\<close> and \<^verbatim>\<open>False\<close>;
  the examples apply it to nothing else.
\<close>

fun sample_repr :: "json \<Rightarrow> pystr" where
  "sample_repr JNull = lit ''None''"
| "sample_repr (JBool b) = (if b then lit ''True'' else lit ''False'')"
| "sample_repr _ = []"

definition mk_task :: "string \<Rightarrow> bool \<Rightarrow> task" where
  "mk_task s d = \<lparr>text = lit s, done = d\<rparr>"

text \<open>The list \<^verbatim>\<open>[A:false, B:true, C:true, D:false]\<close>.\<close>

definition abcd :: "task list" where
  "abcd = [mk_task ''A'' False, mk_task ''B'' True, mk_task ''C'' True, mk_task ''D'' False]"

text \<open>A world with no file where writing works, and one where every write fails and
  leaves a truncated file.\<close>

definition fresh_world :: world where
  "fresh_world = \<lparr>data_file = Missing, write_fault = None, events = []\<rparr>"

definition full_world :: world where
  "full_world = \<lparr>data_file = Missing, write_fault = Some Garbage, events = []\<rparr>"

text \<open>The file \<^verbatim>\<open>[{"text":"x"}, {"foo":"bar"}, {"text":"y","done":true}]\<close>.\<close>

definition xy_world :: world where
  "xy_world =
     \<lparr>data_file = Doc (JArr [JObj [(lit ''text'', JStr (lit ''x''))],
                            JObj [(lit ''foo'', JStr (lit ''bar''))],
                            JObj [(lit ''text'', JStr (lit ''y'')), (lit ''done'', JBool True)]]),
      write_fault = None, events = []\<rparr>"

text \<open>The file \<^verbatim>\<open>[{"text": "  "}]\<close>: one record whose text is two spaces.\<close>

definition blank_world :: world where
  "blank_world =
     \<lparr>data_file = Doc (JArr [JObj [(lit ''text'', JStr (lit ''  ''))]]),
      write_fault = None, events = []\<rparr>"

text \<open>A world where the path of the file cannot be examined.\<close>

definition locked_world :: world where
  "locked_world = \<lparr>data_file = Inaccessible, write_fault = None, events = []\<rparr>"

text \<open>A task whose text is the two surrogates of \<open>U+1F600\<close>, and the task of that one
  code point.\<close>

definition pair_task :: task where
  "pair_task = \<lparr>text = [0xD83D, 0xDE00], done = False\<rparr>"

definition merged_task :: task where
  "merged_task = \<lparr>text = [0x1F600], done = False\<rparr>"

definition abcd_gui :: gui where
  "abcd_gui = \<lparr>tasks = abcd, world = fresh_world\<rparr>"

definition abcd_gui_full :: gui where
  "abcd_gui_full = \<lparr>tasks = abcd, world = full_world\<rparr>"

section \<open>The persistence store\<close>

lemma lit_text_done: "lit ''text'' \<noteq> lit ''done''" "lit ''done'' \<noteq> lit ''text''"
  by (simp_all add: lit_def)

lemma reload_keys:
  "json_reload_str (lit ''text'') = lit ''text''" "json_reload_str (lit ''done'') = lit ''done''"
  by (simp_all add: json_reload_str_def lit_def is_high_def)

lemma has_text_reload_task: "has_key (lit ''text'') (reload_task t)"
  by (simp add: has_key_def reload_task_def reload_keys)

lemma task_of_item_reload_task: "task_of_item R (reload_task t) = reloaded t"
  by (simp add: task_of_item_def reload_task_def reloaded_def dict_get_def reload_keys
        lit_text_done)

lemma is_dict_reload_task: "is_dict (reload_task t)"
  by (simp add: reload_task_def)

lemma load_loop_reload: "load_loop R (map reload_task ts) out = out @ map reloaded ts"
  by (induction ts arbitrary: out)
     (simp_all add: has_text_reload_task task_of_item_reload_task is_dict_reload_task)

lemma join_surrogates:
  assumes "0x10000 \<le> c" "c < 0x110000"
  shows "is_high (0xD800 + (c - 0x10000) div 1024)"
    and "is_low (0xDC00 + (c - 0x10000) mod 1024)"
    and "0x10000 + (0xD800 + (c - 0x10000) div 1024 - 0xD800) * 1024
           + (0xDC00 + (c - 0x10000) mod 1024 - 0xDC00) = c"
  using assms by (simp_all add: is_high_def is_low_def)

lemma hd_dumps_units:
  "hd (dumps_units (d # ds)) = (if d < 0x10000 then d else 0xD800 + (d - 0x10000) div 1024)"
  by simp

lemma loads_cons_single:
  assumes "\<not> is_high c \<or> us = [] \<or> \<not> is_low (hd us)"
  shows "loads_units (c # us) = c # loads_units us"
  using assms by (cases us) auto

lemma has_pair_tail: "\<not> has_pair (c # cs) \<Longrightarrow> \<not> has_pair cs"
  by (cases cs) auto

lemma reload_plain: "py_valid s \<Longrightarrow> \<not> has_pair s \<Longrightarrow> json_reload_str s = s"
proof (induction s)
  case Nil
  show ?case by (simp add: json_reload_str_def)
next
  case (Cons c cs)
  have valid: "c < 0x110000" "py_valid cs" using Cons.prems(1) by (simp_all add: py_valid_def)
  have rest: "loads_units (dumps_units cs) = cs"
    using Cons.IH valid(2) has_pair_tail [OF Cons.prems(2)] by (simp add: json_reload_str_def)
  show ?case
  proof (cases "c < 0x10000")
    case True
    have "\<not> is_high c \<or> dumps_units cs = [] \<or> \<not> is_low (hd (dumps_units cs))"
    proof (cases cs)
      case Nil
      then show ?thesis by simp
    next
      case (Cons d ds)
      have d: "d < 0x110000" using valid(2) Cons by (simp add: py_valid_def)
      show ?thesis
      proof (cases "d < 0x10000")
        case True
        then show ?thesis
          using Cons.prems(2) \<open>cs = d # ds\<close> by (auto simp: hd_dumps_units)
      next
        case False
        then have "is_high (hd (dumps_units cs))"
          using d \<open>cs = d # ds\<close> join_surrogates(1) [of d] by (simp add: hd_dumps_units)
        then show ?thesis by (simp add: is_high_def is_low_def)
      qed
    qed
    then have "loads_units (c # dumps_units cs) = c # loads_units (dumps_units cs)"
      by (rule loads_cons_single)
    then show ?thesis using True rest by (simp add: json_reload_str_def)
  next
    case False
    then have c: "0x10000 \<le> c" by simp
    show ?thesis
      using False rest join_surrogates [OF c valid(1)]
      by (simp add: json_reload_str_def)
  qed
qed

lemma reloaded_plain: "plain_task t \<Longrightarrow> reloaded t = t"
  by (simp add: plain_task_def reloaded_def reload_plain)

lemma map_reloaded_plain: "list_all plain_task ts \<Longrightarrow> map reloaded ts = ts"
  by (induction ts) (simp_all add: reloaded_plain)

lemma save_tasks_ok:
  "write_fault w = None \<Longrightarrow>
   save_tasks ts w = ((emit (WriteText (tasks_json ts)) w)\<lparr>data_file := Doc (reload_tasks ts)\<rparr>, None)"
  by (simp add: save_tasks_def emit_def Let_def)

lemma load_tasks_Doc:
  "data_file w = Doc (reload_tasks ts) \<Longrightarrow> load_tasks R w = Inr (map reloaded ts)"
  using load_loop_reload [of R ts "[]"] by (simp add: load_tasks_def reload_tasks_def)

lemma load_loop_append: "load_loop R items out = out @ load_loop R items []"
proof (induction items arbitrary: out)
  case Nil
  show ?case by simp
next
  case (Cons item rest)
  show ?case
  proof (cases "is_dict item \<and> has_key (lit ''text'') item")
    case True
    have "load_loop R (item # rest) out = load_loop R rest (out @ [task_of_item R item])"
      using True by simp
    also have "\<dots> = (out @ [task_of_item R item]) @ load_loop R rest []"
      by (rule Cons.IH)
    also have "\<dots> = out @ load_loop R rest [task_of_item R item]"
      using Cons.IH [of "[task_of_item R item]"] by simp
    also have "\<dots> = out @ load_loop R (item # rest) []"
      using True by simp
    finally show ?thesis .
  next
    case False
    then show ?thesis using Cons.IH [of out] by auto
  qed
qed

lemma load_loop_records: "load_loop R items [] = load_records R items"
proof (induction items)
  case Nil
  show ?case by simp
next
  case (Cons item rest)
  show ?case
  proof (cases item)
    case (JObj kvs)
    show ?thesis
    proof (cases "map_of kvs (lit ''text'')")
      case None
      then show ?thesis using JObj Cons.IH
        by (simp add: has_key_def record_task_def)
    next
      case (Some v)
      have "load_loop R (item # rest) [] = [task_of_item R item] @ load_loop R rest []"
        using JObj Some load_loop_append [of R rest "[task_of_item R item]"]
        by (simp add: has_key_def)
      moreover have "record_task R kvs = Some (task_of_item R item)"
        using JObj Some
        by (simp add: record_task_def task_of_item_def dict_get_def split: option.splits)
      ultimately show ?thesis using JObj Cons.IH by simp
    qed
  qed (use Cons.IH in simp_all)
qed

text \<open>
  Where the path can be examined, \<^verbatim>\<open>load_tasks\<close> returns the list the specification
  describes: for a file whose content is a sequence, the tasks of the records that are
  objects with a \<open>text\<close> field (the text converted with \<^verbatim>\<open>str\<close>, \<open>done\<close> converted with
  \<^verbatim>\<open>bool\<close> and false when absent, other fields ignored), the other records dropped; the
  empty list for a file that is missing, unreadable, not JSON, or not a sequence.
\<close>

lemma load_tasks_accessible:
  "data_file w \<noteq> Inaccessible \<Longrightarrow> load_tasks R w = Inr (load_spec R (data_file w))"
proof (cases "data_file w")
  case (Doc v)
  then show ?thesis
    by (cases v) (simp_all add: load_tasks_def load_loop_records)
qed (simp_all add: load_tasks_def)

lemma load_tasks_inaccessible:
  "data_file w = Inaccessible \<Longrightarrow> load_tasks R w = Inl OSError"
  by (simp add: load_tasks_def)

lemma load_tasks_xy:
  "load_tasks sample_repr xy_world = Inr [mk_task ''x'' False, mk_task ''y'' True]"
  using load_tasks_accessible [of xy_world sample_repr]
  by (simp add: xy_world_def mk_task_def record_task_def lit_def)

text \<open>
  Claim C8 fails on the code where the path cannot be examined: the specification's
  \<open>load\<close> returns the empty sequence and never fails, and \<^verbatim>\<open>load_tasks\<close> raises the
  \<^verbatim>\<open>OSError\<close> of \<^verbatim>\<open>data_file.exists()\<close>, which stands before the \<^verbatim>\<open>try\<close>.
\<close>

theorem load_tasks_raises:
  "load_tasks sample_repr locked_world = Inl OSError
   \<and> load_spec sample_repr (data_file locked_world) = []"
  by (simp add: load_tasks_inaccessible locked_world_def)

text \<open>
  Claim C3 as stated fails: a task whose text is a high surrogate followed by a low
  surrogate is saved, and loaded as the task of the one code point the two encode.
\<close>

theorem save_load_counterexample:
  "load_tasks sample_repr (fst (save_tasks [pair_task] fresh_world)) = Inr [merged_task]
   \<and> load_tasks sample_repr (fst (save_tasks [pair_task] fresh_world)) \<noteq> Inr [pair_task]"
proof -
  have "reloaded pair_task = merged_task"
    by (simp add: reloaded_def pair_task_def merged_task_def json_reload_str_def is_high_def
          is_low_def)
  moreover have "merged_task \<noteq> pair_task"
    by (simp add: pair_task_def merged_task_def)
  ultimately show ?thesis
    by (simp add: save_tasks_ok load_tasks_Doc fresh_world_def)
qed

text \<open>
  Claim C3, amended. A save that succeeds followed by a load returns the saved tasks in
  the same order, each with its flag and with its text read back through JSON's code
  units; that is the saved list itself when no text has a surrogate pair.
\<close>

theorem save_load_roundtrip:
  assumes "write_fault w = None"
  shows "snd (save_tasks ts w) = None
   \<and> load_tasks R (fst (save_tasks ts w)) = Inr (map reloaded ts)
   \<and> (list_all plain_task ts \<longrightarrow> load_tasks R (fst (save_tasks ts w)) = Inr ts)"
  using assms by (simp add: save_tasks_ok load_tasks_Doc map_reloaded_plain)

theorem save_load_roundtrip_witness:
  "write_fault fresh_world = None \<and> snd (save_tasks abcd fresh_world) = None
   \<and> list_all plain_task abcd
   \<and> load_tasks sample_repr (fst (save_tasks abcd fresh_world)) = Inr abcd"
proof -
  have h: "write_fault fresh_world = None" by (simp add: fresh_world_def)
  have p: "list_all plain_task abcd"
    by (simp add: abcd_def mk_task_def plain_task_def py_valid_def lit_def is_high_def)
  show ?thesis
    using h p save_load_roundtrip [OF h, of abcd sample_repr] by (simp add: map_reloaded_plain)
qed

section \<open>Facts about the operations\<close>

lemma py_strip_idem: "py_strip (py_strip s) = py_strip s"
proof -
  define a where "a = dropWhile py_isspace s"
  define b where "b = rev (dropWhile py_isspace (rev a))"
  have b: "py_strip s = b" by (simp add: py_strip_def a_def b_def)
  have a_split: "a = b @ rev (takeWhile py_isspace (rev a))"
  proof -
    have "b @ rev (takeWhile py_isspace (rev a)) =
          rev (takeWhile py_isspace (rev a) @ dropWhile py_isspace (rev a))"
      by (simp only: rev_append b_def)
    also have "\<dots> = rev (rev a)" by (simp only: takeWhile_dropWhile_id)
    also have "\<dots> = a" by simp
    finally show ?thesis by simp
  qed
  have front: "dropWhile py_isspace b = b"
  proof (cases b)
    case Nil
    then show ?thesis by simp
  next
    case (Cons x xs)
    then have "a \<noteq> []" "hd a = x" using a_split by (cases a; simp)+
    then have "\<not> py_isspace x" using hd_dropWhile [of py_isspace s] by (simp add: a_def)
    then show ?thesis using Cons by simp
  qed
  have "py_strip b = rev (dropWhile py_isspace (rev b))"
    by (simp add: py_strip_def front)
  also have "rev b = dropWhile py_isspace (rev a)" by (simp add: b_def)
  also have "rev (dropWhile py_isspace (dropWhile py_isspace (rev a))) = b"
    by (simp add: b_def)
  finally show ?thesis by (simp add: b)
qed

lemma py_strip_empty: "(py_strip s = []) = (\<forall>c \<in> set s. py_isspace c)"
proof
  assume e: "py_strip s = []"
  then have all: "\<forall>x \<in> set (dropWhile py_isspace s). py_isspace x"
    by (simp add: py_strip_def)
  have "dropWhile py_isspace s = []"
  proof (rule ccontr)
    assume n: "dropWhile py_isspace s \<noteq> []"
    then have "\<not> py_isspace (hd (dropWhile py_isspace s))" by (rule hd_dropWhile)
    moreover have "hd (dropWhile py_isspace s) \<in> set (dropWhile py_isspace s)"
      using n by simp
    ultimately show False using all by blast
  qed
  then show "\<forall>c \<in> set s. py_isspace c" by simp
next
  assume "\<forall>c \<in> set s. py_isspace c"
  then have d: "dropWhile py_isspace s = []" by simp
  show "py_strip s = []" by (simp only: py_strip_def d rev.simps dropWhile.simps)
qed

lemma big_not_space: "0xD800 \<le> c \<Longrightarrow> \<not> py_isspace c"
  by (simp add: py_isspace_def)

lemma dumps_units_nonspace:
  "\<exists>c \<in> set s. \<not> py_isspace c \<Longrightarrow> \<exists>u \<in> set (dumps_units s). \<not> py_isspace u"
proof (induction s)
  case Nil
  then show ?case by simp
next
  case (Cons c cs)
  show ?case
  proof (cases "c < 0x10000")
    case True
    then show ?thesis using Cons by auto
  next
    case False
    have "\<not> py_isspace (0xD800 + (c - 0x10000) div 1024)" by (rule big_not_space) simp
    then show ?thesis using False by simp
  qed
qed

lemma loads_units_nonspace:
  "\<exists>u \<in> set us. \<not> py_isspace u \<Longrightarrow> \<exists>c \<in> set (loads_units us). \<not> py_isspace c"
proof (induction us rule: loads_units.induct)
  case (1 u v us)
  show ?case
  proof (cases "is_high u \<and> is_low v")
    case True
    have "\<not> py_isspace (0x10000 + (u - 0xD800) * 1024 + (v - 0xDC00))"
      by (rule big_not_space) simp
    then show ?thesis using True by simp
  next
    case False
    then show ?thesis using 1 by auto
  qed
qed simp_all

lemma strip_reload: "py_strip s \<noteq> [] \<Longrightarrow> py_strip (json_reload_str s) \<noteq> []"
  unfolding py_strip_empty json_reload_str_def
  using dumps_units_nonspace [of s] loads_units_nonspace [of "dumps_units s"] by blast

lemma task_inv_reloaded: "task_inv ts \<Longrightarrow> task_inv (map reloaded ts)"
  by (induction ts) (simp_all add: task_inv_def reloaded_def strip_reload)

lemma py_index_valid: "0 \<le> i \<Longrightarrow> i < int (length xs) \<Longrightarrow> py_index xs i = Some (nat i)"
  by (simp add: py_index_def)

lemma py_index_out:
  "int (length xs) \<le> i \<or> i < - int (length xs) \<Longrightarrow> py_index xs i = None"
  by (auto simp: py_index_def)

lemma py_index_less: "py_index xs i = Some j \<Longrightarrow> j < length xs"
  by (auto simp: py_index_def split: if_splits)

lemma world_emit [simp]:
  "write_fault (emit e w) = write_fault w"
  "data_file (emit e w) = data_file w"
  "events (emit e w) = events w @ [e]"
  by (simp_all add: emit_def)

lemma world_act [simp]: "world (act e g) = emit e (world g)" "tasks (act e g) = tasks g"
  by (simp_all add: act_def)

lemma refresh_list_simps [simp]:
  "world (refresh_list g) = emit (RefreshList (tasks g)) (world g)"
  "tasks (refresh_list g) = tasks g"
  by (simp_all add: refresh_list_def)

lemma save_eq:
  "save g =
     (case write_fault (world g) of
        None \<Rightarrow> Returned (g\<lparr>world := (emit (WriteText (tasks_json (tasks g))) (world g))
                                   \<lparr>data_file := Doc (reload_tasks (tasks g))\<rparr>\<rparr>)
      | Some f \<Rightarrow> Raised OSError (g\<lparr>world := (emit (WriteText (tasks_json (tasks g))) (world g))
                                        \<lparr>data_file := f\<rparr>\<rparr>))"
  by (simp add: save_def save_tasks_def Let_def split: option.splits)

lemma tasks_save_then:
  assumes "\<And>g'. tasks (state_of (f g')) = tasks g'"
  shows "tasks (state_of (and_then (save g) f)) = tasks g"
  using assms by (simp add: save_eq split: option.splits)

lemma tasks_add_task:
  "tasks (state_of (add_task raw g)) =
     (if py_strip raw = [] then tasks g else tasks g @ [\<lparr>text = py_strip raw, done = False\<rparr>])"
  by (simp add: add_task_def Let_def tasks_save_then)

lemma tasks_toggle_done:
  "tasks (state_of (toggle_done idx g)) =
     (case idx of None \<Rightarrow> tasks g
      | Some i \<Rightarrow> (case py_index (tasks g) i of None \<Rightarrow> tasks g
          | Some j \<Rightarrow> (tasks g)[j := (tasks g ! j)\<lparr>done := \<not> done (tasks g ! j)\<rparr>]))"
  by (simp add: toggle_done_def tasks_save_then split: option.splits)

lemma tasks_delete_task:
  "tasks (state_of (delete_task idx yes g)) =
     (case idx of None \<Rightarrow> tasks g
      | Some i \<Rightarrow> (case py_index (tasks g) i of None \<Rightarrow> tasks g
          | Some j \<Rightarrow> if yes then take j (tasks g) @ drop (Suc j) (tasks g) else tasks g))"
  by (simp add: delete_task_def Let_def tasks_save_then split: option.splits)

lemma tasks_clear_completed:
  "tasks (state_of (clear_completed g)) = filter (\<lambda>t. \<not> done t) (tasks g)"
  by (simp add: clear_completed_def Let_def tasks_save_then)

lemma task_inv_update:
  assumes "task_inv ts" "j < length ts"
  shows "task_inv (ts[j := (ts ! j)\<lparr>done := d\<rparr>])"
  using assms by (auto simp: task_inv_def list_all_length nth_list_update)

lemma task_inv_remove:
  assumes "task_inv ts"
  shows "task_inv (take j ts @ drop (Suc j) ts)"
  using assms by (auto simp: task_inv_def list_all_iff dest: in_set_takeD in_set_dropD)

lemma task_inv_filter: "task_inv ts \<Longrightarrow> task_inv (filter P ts)"
  by (auto simp: task_inv_def list_all_iff)

section \<open>The controller operations\<close>

lemma new_events_eq:
  "events (world (state_of out)) = events (world g) @ es \<Longrightarrow> new_events g out = es"
  by (simp add: new_events_def)

lemma add_task_empty:
  "py_strip raw = [] \<Longrightarrow> add_task raw g = Returned (act (ShowInfo EmptyTask) g)"
  by (simp add: add_task_def)

lemma add_task_events:
  "py_strip raw \<noteq> [] \<Longrightarrow>
   new_events g (add_task raw g) =
     [SetTaskVar [], WriteText (tasks_json (tasks g @ [\<lparr>text = py_strip raw, done = False\<rparr>]))]
     @ (if write_fault (world g) = None
        then [RefreshList (tasks g @ [\<lparr>text = py_strip raw, done = False\<rparr>])] else [])"
  by (rule new_events_eq) (simp add: add_task_def Let_def save_eq split: option.splits)

text \<open>
  Claim C2. \<^verbatim>\<open>add_task\<close> shows the "empty task" message exactly when the input is empty
  after trimming; then it returns with the list and the file as they were and with no
  write. Otherwise the list is the old one followed by the one new task (the trimmed
  text, not done), every old task in its place, and the new list is then written.
\<close>

theorem add_task_spec:
  "(ShowInfo EmptyTask \<in> set (new_events g (add_task raw g))) = (py_strip raw = [])
   \<and> (py_strip raw = [] \<longrightarrow>
        raised (add_task raw g) = None
        \<and> tasks (state_of (add_task raw g)) = tasks g
        \<and> data_file (world (state_of (add_task raw g))) = data_file (world g)
        \<and> new_events g (add_task raw g) = [ShowInfo EmptyTask])
   \<and> (py_strip raw \<noteq> [] \<longrightarrow>
        tasks (state_of (add_task raw g)) = tasks g @ [\<lparr>text = py_strip raw, done = False\<rparr>]
        \<and> length (tasks (state_of (add_task raw g))) = length (tasks g) + 1
        \<and> take (length (tasks g)) (tasks (state_of (add_task raw g))) = tasks g
        \<and> new_events g (add_task raw g) =
            [SetTaskVar [],
             WriteText (tasks_json (tasks g @ [\<lparr>text = py_strip raw, done = False\<rparr>]))]
            @ (if write_fault (world g) = None
               then [RefreshList (tasks g @ [\<lparr>text = py_strip raw, done = False\<rparr>])] else []))"
proof (cases "py_strip raw = []")
  case True
  have "new_events g (add_task raw g) = [ShowInfo EmptyTask]"
    by (rule new_events_eq) (simp add: True add_task_empty)
  then show ?thesis using True by (simp add: add_task_empty)
next
  case False
  then show ?thesis by (simp add: add_task_events tasks_add_task)
qed

lemma strip_samples:
  "py_strip (lit '' milk '') = lit ''milk''" "py_strip (lit ''   '') = []"
  by (simp_all add: py_strip_def lit_def py_isspace_def)

theorem add_task_spec_witness:
  "py_strip (lit ''   '') = []
   \<and> add_task (lit ''   '') abcd_gui = Returned (act (ShowInfo EmptyTask) abcd_gui)
   \<and> py_strip (lit '' milk '') \<noteq> []
   \<and> tasks (state_of (add_task (lit '' milk '') abcd_gui)) = abcd @ [mk_task ''milk'' False]
   \<and> new_events abcd_gui (add_task (lit '' milk '') abcd_gui) =
       [SetTaskVar [], WriteText (tasks_json (abcd @ [mk_task ''milk'' False])),
        RefreshList (abcd @ [mk_task ''milk'' False])]"
  using add_task_spec [of abcd_gui "lit ''   ''"] add_task_spec [of abcd_gui "lit '' milk ''"]
  by (simp add: strip_samples add_task_empty abcd_gui_def fresh_world_def mk_task_def)
     (simp add: lit_def)

text \<open>
  Claim C4. On a position \<open>0 \<le> i < len\<close>, \<^verbatim>\<open>toggle_done\<close> keeps the length, the text at
  \<open>i\<close> and every other task, negates \<open>done\<close> at \<open>i\<close>, and a second call gives the
  starting list back.
\<close>

theorem toggle_done_spec:
  assumes "0 \<le> i" "i < int (length (tasks g))"
  shows "length (tasks (state_of (toggle_done (Some i) g))) = length (tasks g)
   \<and> text (tasks (state_of (toggle_done (Some i) g)) ! nat i) = text (tasks g ! nat i)
   \<and> done (tasks (state_of (toggle_done (Some i) g)) ! nat i) = (\<not> done (tasks g ! nat i))
   \<and> (\<forall>j < length (tasks g). j \<noteq> nat i \<longrightarrow>
         tasks (state_of (toggle_done (Some i) g)) ! j = tasks g ! j)
   \<and> tasks (state_of (toggle_done (Some i) (state_of (toggle_done (Some i) g)))) = tasks g"
proof -
  let ?ts = "tasks g"
  let ?ts1 = "?ts[nat i := (?ts ! nat i)\<lparr>done := \<not> done (?ts ! nat i)\<rparr>]"
  have n: "nat i < length ?ts" using assms by simp
  have one: "tasks (state_of (toggle_done (Some i) g)) = ?ts1"
    using assms by (simp add: tasks_toggle_done py_index_valid)
  have "py_index ?ts1 i = Some (nat i)"
    using assms by (simp add: py_index_valid)
  then have two: "tasks (state_of (toggle_done (Some i) (state_of (toggle_done (Some i) g)))) =
      ?ts1[nat i := (?ts1 ! nat i)\<lparr>done := \<not> done (?ts1 ! nat i)\<rparr>]"
    by (simp add: tasks_toggle_done [of "Some i" "state_of (toggle_done (Some i) g)"] one)
  have restored: "?ts1[nat i := (?ts1 ! nat i)\<lparr>done := \<not> done (?ts1 ! nat i)\<rparr>] = ?ts"
    using n by (simp add: list_update_same_conv)
  show ?thesis
    unfolding two restored unfolding one using n by simp
qed

theorem toggle_done_spec_witness:
  "(0::int) \<le> 1 \<and> (1::int) < int (length (tasks abcd_gui))
   \<and> tasks (state_of (toggle_done (Some 1) abcd_gui)) =
       [mk_task ''A'' False, mk_task ''B'' False, mk_task ''C'' True, mk_task ''D'' False]
   \<and> (2::nat) < length (tasks abcd_gui) \<and> (2::nat) \<noteq> nat 1
   \<and> tasks (state_of (toggle_done (Some 1) abcd_gui)) ! 2 = tasks abcd_gui ! 2
   \<and> tasks (state_of (toggle_done (Some 1) (state_of (toggle_done (Some 1) abcd_gui)))) = abcd"
proof -
  have h: "(0::int) \<le> 1" "(1::int) < int (length (tasks abcd_gui))"
    by (simp_all add: abcd_gui_def abcd_def)
  have "tasks (state_of (toggle_done (Some 1) abcd_gui)) =
       [mk_task ''A'' False, mk_task ''B'' False, mk_task ''C'' True, mk_task ''D'' False]"
    by (simp add: tasks_toggle_done py_index_def abcd_gui_def abcd_def mk_task_def)
  then show ?thesis
    using h toggle_done_spec [OF h] by (simp add: abcd_gui_def abcd_def)
qed

lemma raised_save_then:
  "write_fault (world g) = Some f \<Longrightarrow> raised (and_then (save g) h) = Some OSError"
  by (simp add: save_eq)

lemma toggle_done_out_of_range:
  "int (length (tasks g)) \<le> i \<or> i < - int (length (tasks g)) \<Longrightarrow>
   toggle_done (Some i) g = Raised IndexError g"
  by (simp add: toggle_done_def py_index_out)

lemma delete_task_out_of_range:
  "int (length (tasks g)) \<le> i \<or> i < - int (length (tasks g)) \<Longrightarrow>
   delete_task (Some i) yes g = Raised IndexError g"
  by (simp add: delete_task_def py_index_out)

lemma delete_task_declined:
  "py_index (tasks g) i = Some j \<Longrightarrow>
   delete_task (Some i) False g = Returned (act (AskYesNo (text (tasks g ! j))) g)"
  by (simp add: delete_task_def Let_def)

lemma no_selection_events:
  "new_events g (Returned (act (ShowInfo NoSelection) g)) = [ShowInfo NoSelection]"
  by (rule new_events_eq) simp

text \<open>
  Claim C5 as stated fails: with four tasks and the index 4, neither \<^verbatim>\<open>toggle_done\<close> nor
  \<^verbatim>\<open>delete_task\<close> shows the "no selection" message; \<^verbatim>\<open>self.tasks[idx]\<close> raises
  \<^verbatim>\<open>IndexError\<close>.
\<close>

theorem no_selection_counterexample:
  "ShowInfo NoSelection \<notin> set (new_events abcd_gui (toggle_done (Some 4) abcd_gui))
   \<and> toggle_done (Some 4) abcd_gui = Raised IndexError abcd_gui
   \<and> ShowInfo NoSelection \<notin> set (new_events abcd_gui (delete_task (Some 4) True abcd_gui))
   \<and> delete_task (Some 4) True abcd_gui = Raised IndexError abcd_gui"
proof -
  have "int (length (tasks abcd_gui)) \<le> 4" by (simp add: abcd_gui_def abcd_def)
  then have "toggle_done (Some 4) abcd_gui = Raised IndexError abcd_gui"
    "delete_task (Some 4) True abcd_gui = Raised IndexError abcd_gui"
    by (simp_all add: toggle_done_out_of_range delete_task_out_of_range)
  then show ?thesis by (simp add: new_events_def)
qed

text \<open>
  Claim C5, amended. With no selection, \<^verbatim>\<open>toggle_done\<close> and \<^verbatim>\<open>delete_task\<close> show the
  "no selection" message and return, with the list and the file as they were and no
  write. With an index out of range they raise \<^verbatim>\<open>IndexError\<close>, the object and the world
  as they were: nothing is changed, written or shown.
\<close>

theorem no_selection_spec:
  "toggle_done None g = Returned (act (ShowInfo NoSelection) g)
   \<and> delete_task None yes g = Returned (act (ShowInfo NoSelection) g)
   \<and> tasks (act (ShowInfo NoSelection) g) = tasks g
   \<and> data_file (world (act (ShowInfo NoSelection) g)) = data_file (world g)
   \<and> new_events g (toggle_done None g) = [ShowInfo NoSelection]
   \<and> new_events g (delete_task None yes g) = [ShowInfo NoSelection]
   \<and> (int (length (tasks g)) \<le> i \<or> i < - int (length (tasks g)) \<longrightarrow>
        toggle_done (Some i) g = Raised IndexError g
        \<and> delete_task (Some i) yes g = Raised IndexError g)"
proof -
  have "toggle_done None g = Returned (act (ShowInfo NoSelection) g)"
    "delete_task None yes g = Returned (act (ShowInfo NoSelection) g)"
    by (simp_all add: toggle_done_def delete_task_def)
  then show ?thesis
    by (simp add: no_selection_events toggle_done_out_of_range delete_task_out_of_range)
qed

theorem no_selection_spec_witness:
  "toggle_done None abcd_gui = Returned (act (ShowInfo NoSelection) abcd_gui)
   \<and> new_events abcd_gui (delete_task None True abcd_gui) = [ShowInfo NoSelection]
   \<and> int (length (tasks abcd_gui)) \<le> 7
   \<and> toggle_done (Some 7) abcd_gui = Raised IndexError abcd_gui
   \<and> delete_task (Some 7) True abcd_gui = Raised IndexError abcd_gui"
proof -
  have h: "int (length (tasks abcd_gui)) \<le> 7" by (simp add: abcd_gui_def abcd_def)
  show ?thesis using h no_selection_spec [of abcd_gui True 7] by (simp add: no_selection_events)
qed

lemma delete_task_events:
  assumes "0 \<le> i" "i < int (length (tasks g))"
  shows "new_events g (delete_task (Some i) True g) =
     [AskYesNo (text (tasks g ! nat i)),
      WriteText (tasks_json (take (nat i) (tasks g) @ drop (Suc (nat i)) (tasks g)))]
     @ (if write_fault (world g) = None
        then [RefreshList (take (nat i) (tasks g) @ drop (Suc (nat i)) (tasks g))] else [])"
  by (rule new_events_eq)
     (simp add: delete_task_def Let_def save_eq py_index_valid [OF assms] split: option.splits)

text \<open>
  Claim C6. On a position \<open>0 \<le> i < len\<close> and the answer yes, \<^verbatim>\<open>delete_task\<close> leaves the
  list without its element \<open>i\<close>: one shorter, the tasks before \<open>i\<close> in place, each task
  after \<open>i\<close> one place to the left; the new list is then written.
\<close>

theorem delete_task_spec:
  assumes "0 \<le> i" "i < int (length (tasks g))"
  shows "tasks (state_of (delete_task (Some i) True g)) =
           take (nat i) (tasks g) @ drop (Suc (nat i)) (tasks g)
   \<and> length (tasks (state_of (delete_task (Some i) True g))) + 1 = length (tasks g)
   \<and> (\<forall>j < nat i. tasks (state_of (delete_task (Some i) True g)) ! j = tasks g ! j)
   \<and> (\<forall>j. nat i \<le> j \<and> j + 1 < length (tasks g) \<longrightarrow>
         tasks (state_of (delete_task (Some i) True g)) ! j = tasks g ! (j + 1))
   \<and> new_events g (delete_task (Some i) True g) =
       [AskYesNo (text (tasks g ! nat i)),
        WriteText (tasks_json (take (nat i) (tasks g) @ drop (Suc (nat i)) (tasks g)))]
       @ (if write_fault (world g) = None
          then [RefreshList (take (nat i) (tasks g) @ drop (Suc (nat i)) (tasks g))] else [])"
proof -
  let ?ts = "tasks g"
  let ?n = "nat i"
  have n: "?n < length ?ts" using assms by simp
  have eq: "tasks (state_of (delete_task (Some i) True g)) = take ?n ?ts @ drop (Suc ?n) ?ts"
    by (simp add: tasks_delete_task py_index_valid [OF assms])
  have len: "length (take ?n ?ts @ drop (Suc ?n) ?ts) + 1 = length ?ts"
    using n by simp
  have before: "\<forall>j < ?n. (take ?n ?ts @ drop (Suc ?n) ?ts) ! j = ?ts ! j"
    using n by (simp add: nth_append)
  have after: "\<forall>j. ?n \<le> j \<and> j + 1 < length ?ts \<longrightarrow>
      (take ?n ?ts @ drop (Suc ?n) ?ts) ! j = ?ts ! (j + 1)"
    using n by (auto simp: nth_append min_def)
  show ?thesis
    unfolding eq using len before after delete_task_events [OF assms] by simp
qed

theorem delete_task_spec_witness:
  "(0::int) \<le> 1 \<and> (1::int) < int (length (tasks abcd_gui))
   \<and> tasks (state_of (delete_task (Some 1) True abcd_gui)) =
       [mk_task ''A'' False, mk_task ''C'' True, mk_task ''D'' False]
   \<and> (0::nat) < nat 1
   \<and> tasks (state_of (delete_task (Some 1) True abcd_gui)) ! 0 = tasks abcd_gui ! 0
   \<and> nat 1 \<le> (2::nat) \<and> (2::nat) + 1 < length (tasks abcd_gui)
   \<and> tasks (state_of (delete_task (Some 1) True abcd_gui)) ! 2 = tasks abcd_gui ! (2 + 1)"
proof -
  have h: "(0::int) \<le> 1" "(1::int) < int (length (tasks abcd_gui))"
    by (simp_all add: abcd_gui_def abcd_def)
  show ?thesis
    using h delete_task_spec [OF h] by (simp add: abcd_gui_def abcd_def)
qed

lemma removed_count:
  "int (length ts) - int (length (filter (\<lambda>t. \<not> done t) ts)) = int (length (filter done ts))"
  using sum_length_filter_compl [of "done" ts] by simp

lemma clear_completed_events:
  "new_events g (clear_completed g) =
     WriteText (tasks_json (filter (\<lambda>t. \<not> done t) (tasks g)))
     # (if write_fault (world g) = None
        then [RefreshList (filter (\<lambda>t. \<not> done t) (tasks g)),
              ShowInfo (Cleared (int (length (filter done (tasks g)))))]
        else [])"
  by (rule new_events_eq)
     (simp add: clear_completed_def Let_def save_eq removed_count split: option.splits)

lemma world_clear_completed:
  "write_fault (world (state_of (clear_completed g))) = write_fault (world g)"
  by (simp add: clear_completed_def Let_def save_eq split: option.splits)

text \<open>
  Claim C7. \<^verbatim>\<open>clear_completed\<close> leaves the tasks that are not done, in their order; it
  always writes the new list, also when nothing was removed; and when the write returns
  it reports the number of tasks removed, which is the number of done tasks.
\<close>

theorem clear_completed_spec:
  "tasks (state_of (clear_completed g)) = filter (\<lambda>t. \<not> done t) (tasks g)
   \<and> new_events g (clear_completed g) =
       WriteText (tasks_json (filter (\<lambda>t. \<not> done t) (tasks g)))
       # (if write_fault (world g) = None
          then [RefreshList (filter (\<lambda>t. \<not> done t) (tasks g)),
                ShowInfo (Cleared (int (length (filter done (tasks g)))))]
          else [])
   \<and> raised (clear_completed g) = (if write_fault (world g) = None then None else Some OSError)"
proof -
  have "raised (clear_completed g) = (if write_fault (world g) = None then None else Some OSError)"
    by (simp add: clear_completed_def Let_def save_eq split: option.splits)
  then show ?thesis
    by (simp add: tasks_clear_completed clear_completed_events)
qed

theorem clear_completed_spec_example:
  "tasks (state_of (clear_completed abcd_gui)) = [mk_task ''A'' False, mk_task ''D'' False]
   \<and> new_events abcd_gui (clear_completed abcd_gui) =
       [WriteText (tasks_json [mk_task ''A'' False, mk_task ''D'' False]),
        RefreshList [mk_task ''A'' False, mk_task ''D'' False],
        ShowInfo (Cleared 2)]
   \<and> raised (clear_completed abcd_gui) = None"
  using clear_completed_spec [of abcd_gui]
  by (simp add: abcd_gui_def abcd_def mk_task_def fresh_world_def)

text \<open>
  Claim C10. After \<^verbatim>\<open>clear_completed\<close> no task is done, so a second call leaves the list
  as it is and (its write returning) reports that 0 tasks were removed.
\<close>

theorem clear_completed_idem:
  "list_all (\<lambda>t. \<not> done t) (tasks (state_of (clear_completed g)))
   \<and> tasks (state_of (clear_completed (state_of (clear_completed g)))) =
       tasks (state_of (clear_completed g))
   \<and> (write_fault (world g) = None \<longrightarrow>
        new_events (state_of (clear_completed g))
          (clear_completed (state_of (clear_completed g))) =
          [WriteText (tasks_json (tasks (state_of (clear_completed g)))),
           RefreshList (tasks (state_of (clear_completed g))),
           ShowInfo (Cleared 0)])"
proof -
  let ?g1 = "state_of (clear_completed g)"
  have none_done: "list_all (\<lambda>t. \<not> done t) (tasks ?g1)"
    by (simp add: tasks_clear_completed list_all_iff)
  then have keep: "filter (\<lambda>t. \<not> done t) (tasks ?g1) = tasks ?g1"
    by (simp add: list_all_iff)
  have zero: "filter done (tasks ?g1) = []"
    using none_done by (simp add: list_all_iff filter_empty_conv)
  have again: "tasks (state_of (clear_completed ?g1)) = tasks ?g1"
    using keep by (simp add: tasks_clear_completed [of ?g1])
  have "write_fault (world g) = None \<longrightarrow>
        new_events ?g1 (clear_completed ?g1) =
          [WriteText (tasks_json (tasks ?g1)), RefreshList (tasks ?g1), ShowInfo (Cleared 0)]"
    using keep zero by (simp add: clear_completed_events [of ?g1] world_clear_completed)
  then show ?thesis using none_done again by blast
qed

theorem clear_completed_idem_witness:
  "write_fault (world abcd_gui) = None
   \<and> tasks (state_of (clear_completed (state_of (clear_completed abcd_gui)))) =
       [mk_task ''A'' False, mk_task ''D'' False]
   \<and> new_events (state_of (clear_completed abcd_gui))
        (clear_completed (state_of (clear_completed abcd_gui))) =
        [WriteText (tasks_json [mk_task ''A'' False, mk_task ''D'' False]),
         RefreshList [mk_task ''A'' False, mk_task ''D'' False],
         ShowInfo (Cleared 0)]"
proof -
  have h: "write_fault (world abcd_gui) = None" by (simp add: abcd_gui_def fresh_world_def)
  have t: "tasks (state_of (clear_completed abcd_gui)) = [mk_task ''A'' False, mk_task ''D'' False]"
    by (simp add: tasks_clear_completed abcd_gui_def abcd_def mk_task_def)
  show ?thesis using h clear_completed_idem [of abcd_gui] by (simp add: t)
qed

text \<open>
  Claim C9. When the write fails, each of the four operations raises the write's
  \<^verbatim>\<open>OSError\<close> to its caller, and \<^verbatim>\<open>self.tasks\<close> is the changed list: the task appended,
  the flag negated, the task removed, the done tasks filtered out.
\<close>

theorem save_failure_spec:
  assumes "write_fault (world g) = Some f"
  shows "(py_strip raw \<noteq> [] \<longrightarrow>
           raised (add_task raw g) = Some OSError
           \<and> tasks (state_of (add_task raw g)) = tasks g @ [\<lparr>text = py_strip raw, done = False\<rparr>])
   \<and> (0 \<le> i \<and> i < int (length (tasks g)) \<longrightarrow>
           raised (toggle_done (Some i) g) = Some OSError
           \<and> tasks (state_of (toggle_done (Some i) g)) =
               (tasks g)[nat i := (tasks g ! nat i)\<lparr>done := \<not> done (tasks g ! nat i)\<rparr>]
           \<and> raised (delete_task (Some i) True g) = Some OSError
           \<and> tasks (state_of (delete_task (Some i) True g)) =
               take (nat i) (tasks g) @ drop (Suc (nat i)) (tasks g))
   \<and> raised (clear_completed g) = Some OSError
   \<and> tasks (state_of (clear_completed g)) = filter (\<lambda>t. \<not> done t) (tasks g)"
proof -
  have add: "py_strip raw \<noteq> [] \<longrightarrow> raised (add_task raw g) = Some OSError"
    using assms by (simp add: add_task_def Let_def raised_save_then)
  have tog: "0 \<le> i \<and> i < int (length (tasks g)) \<longrightarrow>
      raised (toggle_done (Some i) g) = Some OSError"
    using assms by (simp add: toggle_done_def py_index_valid raised_save_then)
  have del: "0 \<le> i \<and> i < int (length (tasks g)) \<longrightarrow>
      raised (delete_task (Some i) True g) = Some OSError"
    using assms by (simp add: delete_task_def Let_def py_index_valid raised_save_then)
  have clr: "raised (clear_completed g) = Some OSError"
    using assms by (simp add: clear_completed_def Let_def raised_save_then)
  show ?thesis
    using add tog del clr
    by (simp add: tasks_add_task tasks_toggle_done tasks_delete_task tasks_clear_completed
          py_index_valid)
qed

theorem save_failure_spec_witness:
  "write_fault (world abcd_gui_full) = Some Garbage
   \<and> py_strip (lit '' milk '') \<noteq> []
   \<and> raised (add_task (lit '' milk '') abcd_gui_full) = Some OSError
   \<and> tasks (state_of (add_task (lit '' milk '') abcd_gui_full)) = abcd @ [mk_task ''milk'' False]
   \<and> (0::int) \<le> 1 \<and> (1::int) < int (length (tasks abcd_gui_full))
   \<and> raised (toggle_done (Some 1) abcd_gui_full) = Some OSError
   \<and> tasks (state_of (toggle_done (Some 1) abcd_gui_full)) =
       [mk_task ''A'' False, mk_task ''B'' False, mk_task ''C'' True, mk_task ''D'' False]
   \<and> raised (delete_task (Some 1) True abcd_gui_full) = Some OSError
   \<and> tasks (state_of (delete_task (Some 1) True abcd_gui_full)) =
       [mk_task ''A'' False, mk_task ''C'' True, mk_task ''D'' False]
   \<and> raised (clear_completed abcd_gui_full) = Some OSError
   \<and> tasks (state_of (clear_completed abcd_gui_full)) = [mk_task ''A'' False, mk_task ''D'' False]"
proof -
  have h: "write_fault (world abcd_gui_full) = Some Garbage"
    by (simp add: abcd_gui_full_def full_world_def)
  have ts: "tasks abcd_gui_full = abcd" by (simp add: abcd_gui_full_def)
  have m: "\<lparr>text = lit ''milk'', done = False\<rparr> = mk_task ''milk'' False"
    by (simp add: mk_task_def)
  show ?thesis
    using h save_failure_spec [OF h, of "lit '' milk ''" 1]
    by (simp add: strip_samples ts m) (simp add: abcd_def mk_task_def lit_def)
qed

section \<open>The invariant of the task list\<close>

lemma task_inv_append:
  "task_inv ts \<Longrightarrow> py_strip raw \<noteq> [] \<Longrightarrow>
   task_inv (ts @ [\<lparr>text = py_strip raw, done = False\<rparr>])"
  by (simp add: task_inv_def py_strip_idem)

lemma init_after_save:
  "write_fault w = None \<Longrightarrow>
   init R (fst (save_tasks ts w)) =
     Inr (refresh_list \<lparr>tasks = map reloaded ts, world = fst (save_tasks ts w)\<rparr>)"
  by (simp add: init_def save_tasks_ok load_tasks_Doc)

text \<open>
  Claim C1 as stated fails at startup: from the file \<^verbatim>\<open>[{"text": "  "}]\<close> the window
  starts with a task whose text is empty after trimming. \<^verbatim>\<open>load_tasks\<close> takes the text
  of a record as it is.
\<close>

theorem task_inv_counterexample:
  "(case init sample_repr blank_world of
      Inl e \<Rightarrow> False
    | Inr g0 \<Rightarrow> \<not> task_inv (tasks g0))"
  by (simp add: init_def load_tasks_def blank_world_def has_key_def task_of_item_def
        dict_get_def task_inv_def py_strip_def py_isspace_def lit_def)

text \<open>
  Claim C1, amended. The invariant is preserved by \<^verbatim>\<open>add_task\<close>, \<^verbatim>\<open>toggle_done\<close>,
  \<^verbatim>\<open>delete_task\<close> and \<^verbatim>\<open>clear_completed\<close>, whatever their arguments and whether or not the
  save succeeds; and when the file was written by a successful save of a list that
  satisfies it, a window starts, with a list that satisfies it.
\<close>

theorem task_inv_preserved:
  assumes "task_inv (tasks g)"
  shows "task_inv (tasks (state_of (add_task raw g)))
   \<and> task_inv (tasks (state_of (toggle_done idx g)))
   \<and> task_inv (tasks (state_of (delete_task idx yes g)))
   \<and> task_inv (tasks (state_of (clear_completed g)))
   \<and> (write_fault w = None \<longrightarrow>
        (case init R (fst (save_tasks (tasks g) w)) of
           Inl e \<Rightarrow> False
         | Inr g0 \<Rightarrow> task_inv (tasks g0)))"
proof -
  have add: "task_inv (tasks (state_of (add_task raw g)))"
    using assms by (simp add: tasks_add_task task_inv_append)
  have tog: "task_inv (tasks (state_of (toggle_done idx g)))"
    using assms
    by (auto simp: tasks_toggle_done split: option.splits
          intro: task_inv_update dest: py_index_less)
  have del: "task_inv (tasks (state_of (delete_task idx yes g)))"
    using assms by (simp add: tasks_delete_task task_inv_remove split: option.splits)
  have clr: "task_inv (tasks (state_of (clear_completed g)))"
    using assms by (simp add: tasks_clear_completed task_inv_filter)
  have "write_fault w = None \<longrightarrow>
        (case init R (fst (save_tasks (tasks g) w)) of
           Inl e \<Rightarrow> False
         | Inr g0 \<Rightarrow> task_inv (tasks g0))"
    using assms by (simp add: init_after_save task_inv_reloaded)
  then show ?thesis using add tog del clr by blast
qed

theorem task_inv_preserved_witness:
  "task_inv (tasks abcd_gui)
   \<and> task_inv (tasks (state_of (add_task (lit '' milk '') abcd_gui)))
   \<and> task_inv (tasks (state_of (toggle_done (Some 1) abcd_gui)))
   \<and> task_inv (tasks (state_of (delete_task (Some 1) True abcd_gui)))
   \<and> task_inv (tasks (state_of (clear_completed abcd_gui)))
   \<and> write_fault fresh_world = None
   \<and> (case init sample_repr (fst (save_tasks (tasks abcd_gui) fresh_world)) of
         Inl e \<Rightarrow> False
       | Inr g0 \<Rightarrow> task_inv (tasks g0))"
proof -
  have h: "task_inv (tasks abcd_gui)"
    by (simp add: abcd_gui_def abcd_def mk_task_def task_inv_def py_strip_def py_isspace_def
          lit_def)
  have w: "write_fault fresh_world = None" by (simp add: fresh_world_def)
  show ?thesis
    using h w task_inv_preserved [OF h, of "lit '' milk ''" "Some 1" True fresh_world sample_repr]
    by simp
qed

end
